theory Spec2Isabelle
  imports Complex_Main
begin

section \<open>Values exchanged with the collaborators\<close>

text \<open>
  The mining controller of \<^verbatim>\<open>factor_mining.py\<close> talks to three remote collaborators
  (the catalog and simulation session \<^verbatim>\<open>wqbs\<close>, the language-model client
  \<^verbatim>\<open>ai_client\<close>) and to the file system. Their replies are Python values decoded from
  JSON. A JSON number is an \<open>int\<close> or a finite \<open>float\<close>; both are rationals, and the only
  operation the controller performs on them is \<open>>=\<close>, so a number is a \<^typ>\<open>rat\<close>.
  A Python \<open>dict\<close> is the list of its items in insertion order, keys distinct.
\<close>

datatype py_error =
    IndexError | KeyError | TypeError | ValueError | AttributeError
  | ZeroDivisionError | JSONDecodeError | OSError | RemoteError

datatype json =
    JNull | JBool bool | JNum rat | JStr string
  | JArr "json list" | JObj "(string \<times> json) list"

type_synonym pydict = "(string \<times> json) list"

text \<open>\<^verbatim>\<open>key in d\<close> and \<^verbatim>\<open>d.get(key, default)\<close>.\<close>

definition has_key :: "pydict \<Rightarrow> string \<Rightarrow> bool" where
  "has_key d k = (map_of d k \<noteq> None)"

definition dict_get :: "pydict \<Rightarrow> string \<Rightarrow> json \<Rightarrow> json" where
  "dict_get d k dflt = (case map_of d k of None \<Rightarrow> dflt | Some v \<Rightarrow> v)"

text \<open>\<^verbatim>\<open>d[key] = value\<close>: a key already present keeps its position and takes the
  new value, a new key goes to the end.\<close>

fun dict_set :: "'k \<Rightarrow> 'v \<Rightarrow> ('k \<times> 'v) list \<Rightarrow> ('k \<times> 'v) list" where
  "dict_set k v [] = [(k, v)]"
| "dict_set k v (p # ps) = (if fst p = k then (k, v) # ps else p # dict_set k v ps)"

text \<open>
  The catalog's entries are the descriptors the platform lists: a dataset carries the
  keys \<^verbatim>\<open>'id'\<close> and \<^verbatim>\<open>'name'\<close> the controller reads, a field the column \<^verbatim>\<open>'id'\<close>
  that \<^verbatim>\<open>get_datafields\<close> selects (with \<^verbatim>\<open>'description'\<close>; the other columns are never
  read by the controller).
\<close>

record dataset_info =
  ds_id :: string
  ds_name :: string

record field_info =
  field_id :: string
  description :: string

section \<open>Strings\<close>

text \<open>
  \<^verbatim>\<open>str.lower()\<close> on the ASCII range: the letters \<open>A\<close> to \<open>Z\<close> move to \<open>a\<close> to \<open>z\<close>, every
  other character stays. Field identifiers and factor expressions are ASCII text.
\<close>

definition lower_char :: "char \<Rightarrow> char" where
  "lower_char c =
     (let n = (of_char c :: nat) in if 65 \<le> n \<and> n \<le> 90 then char_of (n + 32) else c)"

definition lower :: "string \<Rightarrow> string" where
  "lower s = map lower_char s"

text \<open>\<^verbatim>\<open>sub in s\<close> on strings: \<open>sub\<close> occurs in \<open>s\<close> as a contiguous run.\<close>

fun str_in :: "string \<Rightarrow> string \<Rightarrow> bool" where
  "str_in sub [] = (sub = [])"
| "str_in sub (c # cs) = (take (length sub) (c # cs) = sub \<or> str_in sub cs)"

text \<open>
  \<^verbatim>\<open>s.replace(old, new)\<close>: the occurrences of \<open>old\<close> are found from the left and do not
  overlap; each is replaced by \<open>new\<close>. An empty \<open>old\<close> matches before every character
  and at the end.
\<close>

function str_replace :: "string \<Rightarrow> string \<Rightarrow> string \<Rightarrow> string" where
  "str_replace old new s =
     (if old = [] then new @ concat (map (\<lambda>c. c # new) s)
      else if s = [] then []
      else if take (length old) s = old
        then new @ str_replace old new (drop (length old) s)
      else hd s # str_replace old new (tl s))"
  by pat_completeness auto
termination
  by (relation "measure (\<lambda>(old, new, s). length s)") auto

declare str_replace.simps [simp del]

section \<open>Field-name casing in \<^verbatim>\<open>simulate_factor\<close>\<close>

text \<open>
  Lines 185 to 191 of \<^verbatim>\<open>factor_mining.py\<close>:
  \<^verbatim>\<open>
  field_map = {field['id'].lower(): field for field in fields_data}
  for field_id, field_info in field_map.items():
      if field_id in factor_expr.lower():
          factor_expr = factor_expr.replace(field_id, field_info['id'])
  \<close>
  The key of \<open>field_map\<close> is the lower-cased identifier; the test reads the lower-cased
  expression, the replacement searches the expression as it stands.
\<close>

definition field_map :: "field_info list \<Rightarrow> (string \<times> field_info) list" where
  "field_map fields_data = foldl (\<lambda>m field. dict_set (lower (field_id field)) field m) [] fields_data"

definition convert_case :: "string \<Rightarrow> string \<times> field_info \<Rightarrow> string" where
  "convert_case factor_expr item =
     (if str_in (fst item) (lower factor_expr)
      then str_replace (fst item) (field_id (snd item)) factor_expr
      else factor_expr)"

definition normalize_fields :: "field_info list \<Rightarrow> string \<Rightarrow> string" where
  "normalize_fields fields_data factor_expr = foldl convert_case factor_expr (field_map fields_data)"

section \<open>The system, its configuration and its environment\<close>

text \<open>
  \<^verbatim>\<open>FACTOR_MINING_CONFIG\<close> of \<^verbatim>\<open>config_local.py\<close>. \<^verbatim>\<open>mine_factors\<close> reads
  \<open>max_factors\<close> and \<open>save_interval\<close> from it on every use, and \<open>max_iterations\<close>
  and \<open>min_sharpe\<close> when the caller passes none.
\<close>

record config =
  max_iterations :: int
  min_sharpe :: rat
  max_factors :: int
  save_interval :: int

definition FACTOR_MINING_CONFIG :: config where
  "FACTOR_MINING_CONFIG =
     \<lparr>max_iterations = 10, min_sharpe = 1.5, max_factors = 100, save_interval = 10\<rparr>"

text \<open>The dictionary \<^verbatim>\<open>factor_info\<close> appended to \<^verbatim>\<open>mined_factors\<close>.\<close>

record factor_info =
  expression :: string
  simulation :: pydict
  check :: pydict
  dataset :: dataset_info

datatype log_level = ERROR | WARNING | INFO

type_synonym log_entry = "log_level \<times> string"

text \<open>
  The fields of \<^verbatim>\<open>FactorMiningSystem\<close>, and what the run has done to the world so far:
  \<open>tick\<close> counts the calls made to the collaborators, \<open>snapshots\<close> are the files
  \<^verbatim>\<open>save_factors\<close> has written (each the sequence dumped), \<open>submitted\<close> the expressions
  handed to \<^verbatim>\<open>wqbs.simulate\<close>. \<open>logger\<close> is \<open>None\<close> when the system was built without a
  logger, otherwise the entries logged so far (a message is rendered in English and
  without its context dictionary).
\<close>

record system =
  logger :: "log_entry list option"
  datasets_info :: "dataset_info list"
  operators_info :: "string list"
  mined_factors :: "factor_info list"
  current_dataset :: "dataset_info option"
  tick :: nat
  snapshots :: "factor_info list list"
  submitted :: "string list"

text \<open>
  The replies of the collaborators. \<^verbatim>\<open>AIClient._make_request\<close> catches every exception
  and always returns a dictionary; of its keys the clients read three, each present or
  not (\<^verbatim>\<open>factor_expression\<close> is text, as the clients' return annotation \<open>str\<close> says).
  An HTTP call raises, answers with \<^verbatim>\<open>resp.ok\<close> false, or answers with a body that
  \<^verbatim>\<open>resp.json()\<close> decodes (a body that does not decode is \<open>Raises JSONDecodeError\<close>);
  the body of a check is a dictionary, as the annotation of \<^verbatim>\<open>check_factor\<close> says, the
  body of a simulation any JSON value, since \<^verbatim>\<open>simulate_factor\<close> tests its type.
  \<open>py_error\<close> stands for the exceptions \<^verbatim>\<open>except Exception\<close> catches; an interrupt of the
  process is outside the model.
  \<^verbatim>\<open>get_datafields\<close> raises, returns the empty \<^verbatim>\<open>DataFrame\<close> of its failure path, or the
  JSON text of the field table, given here decoded.
\<close>

record ai_reply =
  reply_selected_dataset :: "json option"
  reply_reason :: "json option"
  reply_factor_expression :: "string option"

datatype 'a http = Raises py_error | Not_ok | Body 'a

datatype fields_result = Fields_raise py_error | Fields_frame | Fields_json "field_info list"

text \<open>
  The environment of one run: the reply each collaborator gives to the call made at a
  given tick. Every behaviour of the collaborators during a run is such a function.
\<close>

record env =
  search_datasets :: "py_error + dataset_info list"
  search_operators :: "py_error + string list"
  make_request :: "nat \<Rightarrow> ai_reply"
  get_datafields :: "nat \<Rightarrow> fields_result"
  wqbs_simulate :: "nat \<Rightarrow> json http"
  wqbs_check :: "nat \<Rightarrow> pydict http"
  file_write :: "nat \<Rightarrow> py_error option"

definition log_event :: "log_level \<Rightarrow> string \<Rightarrow> system \<Rightarrow> system" where
  "log_event lvl msg st =
     (case logger st of
        None \<Rightarrow> st
      | Some entries \<Rightarrow> st\<lparr>logger := Some (entries @ [(lvl, msg)])\<rparr>)"

abbreviation log_error :: "string \<Rightarrow> system \<Rightarrow> system" where
  "log_error \<equiv> log_event ERROR"

abbreviation log_warning :: "string \<Rightarrow> system \<Rightarrow> system" where
  "log_warning \<equiv> log_event WARNING"

abbreviation log_info :: "string \<Rightarrow> system \<Rightarrow> system" where
  "log_info \<equiv> log_event INFO"

definition called :: "system \<Rightarrow> system" where
  "called st = st\<lparr>tick := Suc (tick st)\<rparr>"

section \<open>\<^verbatim>\<open>initialize\<close> and \<^verbatim>\<open>select_dataset\<close>\<close>

definition initialize :: "env \<Rightarrow> system \<Rightarrow> (py_error + unit) \<times> system" where
  "initialize E st =
     (case search_datasets E of
        Inl e \<Rightarrow> (Inl e, st)
      | Inr results \<Rightarrow>
          (case search_operators E of
             Inl e \<Rightarrow> (Inl e, st\<lparr>datasets_info := results\<rparr>)
           | Inr names \<Rightarrow>
               (Inr (), log_info ''system initialised''
                  (st\<lparr>datasets_info := results, operators_info := names\<rparr>))))"

text \<open>
  \<^verbatim>\<open>AIClient.select_dataset\<close>: the reply is returned when it has both keys, otherwise a
  default selection naming \<^verbatim>\<open>datasets_info['results'][0]['id']\<close>.
\<close>

record selection =
  selected_dataset :: json
  reason :: json

definition ai_select_dataset :: "ai_reply \<Rightarrow> dataset_info list \<Rightarrow> py_error + selection" where
  "ai_select_dataset response results =
     (case (reply_selected_dataset response, reply_reason response) of
        (Some sd, Some r) \<Rightarrow> Inr \<lparr>selected_dataset = sd, reason = r\<rparr>
      | _ \<Rightarrow>
          (case results of
             [] \<Rightarrow> Inl IndexError
           | d # _ \<Rightarrow>
               Inr \<lparr>selected_dataset = JStr (ds_id d),
                    reason = JStr ''reply not understood, first dataset taken as default''\<rparr>))"

text \<open>
  \<^verbatim>\<open>FactorMiningSystem.select_dataset\<close>: the first catalog entry whose id equals the
  selected one, otherwise \<^verbatim>\<open>self.datasets_info['results'][0]\<close>.
\<close>

definition select_dataset :: "env \<Rightarrow> system \<Rightarrow> (py_error + dataset_info) \<times> system" where
  "select_dataset E st =
     (case ai_select_dataset (make_request E (tick st)) (datasets_info st) of
        Inl e \<Rightarrow> (Inl e, called st)
      | Inr selection \<Rightarrow>
          (case find (\<lambda>d. JStr (ds_id d) = selected_dataset selection) (datasets_info st) of
             Some d \<Rightarrow>
               (Inr d, log_info ''dataset selected by the AI'' (called st\<lparr>current_dataset := Some d\<rparr>))
           | None \<Rightarrow>
               (case datasets_info st of
                  [] \<Rightarrow> (Inl IndexError, called st)
                | d # _ \<Rightarrow> (Inr d, called st\<lparr>current_dataset := Some d\<rparr>))))"

section \<open>Generating, simulating and checking a factor\<close>

definition ai_generate_initial_factor :: "ai_reply \<Rightarrow> string" where
  "ai_generate_initial_factor response =
     (case reply_factor_expression response of Some e \<Rightarrow> e | None \<Rightarrow> [])"

definition ai_generate_next_factor :: "factor_info list \<Rightarrow> ai_reply \<Rightarrow> string" where
  "ai_generate_next_factor previous_factors response =
     (case reply_factor_expression response of Some e \<Rightarrow> e | None \<Rightarrow> [])"

text \<open>
  \<^verbatim>\<open>self.current_dataset['id']\<close> raises \<open>TypeError\<close> while no dataset is selected.
  \<^verbatim>\<open>not fields_json\<close> raises \<open>ValueError\<close> on a \<^verbatim>\<open>DataFrame\<close> and is false on the JSON text
  (which is never empty), so the branch that returns the empty string is never taken.
\<close>

definition generate_initial_factor :: "env \<Rightarrow> system \<Rightarrow> (py_error + string) \<times> system" where
  "generate_initial_factor E st =
     (case current_dataset st of
        None \<Rightarrow> (Inl TypeError, st)
      | Some ds \<Rightarrow>
          (case get_datafields E (tick st) of
             Fields_raise e \<Rightarrow> (Inl e, called st)
           | Fields_frame \<Rightarrow> (Inl ValueError, called st)
           | Fields_json fields_data \<Rightarrow>
               (Inr (ai_generate_initial_factor (make_request E (Suc (tick st)))),
                called (called st))))"

definition generate_next_factor ::
  "env \<Rightarrow> factor_info list \<Rightarrow> system \<Rightarrow> (py_error + string) \<times> system" where
  "generate_next_factor E previous_factors st =
     (case current_dataset st of
        None \<Rightarrow> (Inl TypeError, st)
      | Some ds \<Rightarrow>
          (case get_datafields E (tick st) of
             Fields_raise e \<Rightarrow> (Inl e, called st)
           | Fields_frame \<Rightarrow> (Inl ValueError, called st)
           | Fields_json fields_data \<Rightarrow>
               (Inr (ai_generate_next_factor previous_factors (make_request E (Suc (tick st)))),
                called (called st))))"

text \<open>
  \<^verbatim>\<open>simulate_factor\<close>: everything runs inside one \<^verbatim>\<open>try\<close> whose handlers log and return
  \<open>{}\<close>. The expression put into the alpha under \<^verbatim>\<open>'regular'\<close> is the one after the
  casing loop.
\<close>

definition simulate_factor :: "env \<Rightarrow> string \<Rightarrow> system \<Rightarrow> pydict \<times> system" where
  "simulate_factor E factor_expr st =
     (case current_dataset st of
        None \<Rightarrow> ([], log_error ''error while simulating the factor'' st)
      | Some ds \<Rightarrow>
          (case get_datafields E (tick st) of
             Fields_raise e \<Rightarrow> ([], log_error ''error while simulating the factor'' (called st))
           | Fields_frame \<Rightarrow> ([], log_error ''error while simulating the factor'' (called st))
           | Fields_json fields_data \<Rightarrow>
               (let st1 = log_info ''dataset fields fetched'' (called st);
                    expr = normalize_fields fields_data factor_expr;
                    st2 = log_info ''simulation started'' st1;
                    st3 = called (st2\<lparr>submitted := submitted st2 @ [expr]\<rparr>)
                in case wqbs_simulate E (tick st2) of
                     Raises e \<Rightarrow>
                       ([], log_error
                          (if e = JSONDecodeError then ''JSON decoding failed''
                           else ''error while simulating the factor'') st3)
                   | Not_ok \<Rightarrow> ([], log_error ''simulation failed'' st3)
                   | Body result \<Rightarrow>
                       (let st4 = log_info ''simulation response'' st3
                        in case result of
                             JObj d \<Rightarrow>
                               if has_key d ''alpha''
                               then (d, log_info ''simulation succeeded'' st4)
                               else ([], log_error ''response lacks a required field'' st4)
                           | _ \<Rightarrow> ([], log_error ''response format error'' st4)))))"

definition check_factor :: "env \<Rightarrow> json \<Rightarrow> system \<Rightarrow> pydict \<times> system" where
  "check_factor E alpha_id st =
     (case wqbs_check E (tick st) of
        Raises e \<Rightarrow> ([], log_error ''error while checking the factor'' (called st))
      | Not_ok \<Rightarrow> ([], log_error ''factor check failed'' (called st))
      | Body result \<Rightarrow> (result, log_info ''factor check succeeded'' (called st)))"

text \<open>\<^verbatim>\<open>save_factors\<close>: a new file holding the whole sequence, unless the write raises.\<close>

definition save_factors :: "env \<Rightarrow> system \<Rightarrow> (py_error + unit) \<times> system" where
  "save_factors E st =
     (case file_write E (tick st) of
        Some e \<Rightarrow> (Inl e, called st)
      | None \<Rightarrow>
          (Inr (), log_info ''factors saved to file''
             (called (st\<lparr>snapshots := snapshots st @ [mined_factors st]\<rparr>))))"

section \<open>The acceptance test\<close>

text \<open>
  Line 402 of \<^verbatim>\<open>factor_mining.py\<close>:
  \<^verbatim>\<open>check_result.get('is', {}).get('checks', [{}])[0].get('value', 0) >= min_sharpe\<close>.
  \<^verbatim>\<open>.get\<close> exists on a dictionary only; \<^verbatim>\<open>[0]\<close> raises on an empty list or string, on
  a dictionary (no JSON key is the number 0) and on a value that has no items; \<^verbatim>\<open>>=\<close>
  with a float is defined on numbers and booleans only.
\<close>

definition json_get :: "json \<Rightarrow> string \<Rightarrow> json \<Rightarrow> py_error + json" where
  "json_get v k dflt = (case v of JObj d \<Rightarrow> Inr (dict_get d k dflt) | _ \<Rightarrow> Inl AttributeError)"

definition first_item :: "json \<Rightarrow> py_error + json" where
  "first_item v =
     (case v of
        JArr [] \<Rightarrow> Inl IndexError
      | JArr (x # _) \<Rightarrow> Inr x
      | JStr [] \<Rightarrow> Inl IndexError
      | JStr (c # _) \<Rightarrow> Inr (JStr [c])
      | JObj _ \<Rightarrow> Inl KeyError
      | _ \<Rightarrow> Inl TypeError)"

definition ge_float :: "json \<Rightarrow> rat \<Rightarrow> py_error + bool" where
  "ge_float v m =
     (case v of
        JNum n \<Rightarrow> Inr (m \<le> n)
      | JBool b \<Rightarrow> Inr (m \<le> (if b then 1 else 0))
      | _ \<Rightarrow> Inl TypeError)"

definition primary_score :: "pydict \<Rightarrow> py_error + json" where
  "primary_score check_result =
     (case json_get (dict_get check_result ''is'' (JObj [])) ''checks'' (JArr [JObj []]) of
        Inl e \<Rightarrow> Inl e
      | Inr checks \<Rightarrow>
          (case first_item checks of
             Inl e \<Rightarrow> Inl e
           | Inr c \<Rightarrow> json_get c ''value'' (JNum 0)))"

definition reaches_target :: "pydict \<Rightarrow> rat \<Rightarrow> py_error + bool" where
  "reaches_target check_result m =
     (case primary_score check_result of Inl e \<Rightarrow> Inl e | Inr v \<Rightarrow> ge_float v m)"

section \<open>The improvement sub-loop\<close>

text \<open>
  How a pass through a loop body ends: \<open>Next\<close> goes back to the loop's test (the body's
  end, or \<^verbatim>\<open>continue\<close>), \<open>Stop\<close> is \<^verbatim>\<open>break\<close>.
\<close>

datatype flow = Next | Stop

text \<open>
  The body of the \<^verbatim>\<open>try\<close> at lines 365 to 409; \<open>Inl\<close> is an exception that reaches the
  handler of line 411.
\<close>

definition improve_body ::
  "env \<Rightarrow> rat \<Rightarrow> dataset_info \<Rightarrow> system \<Rightarrow> (py_error + flow) \<times> system" where
  "improve_body E min_sh ds st =
     (case generate_next_factor E (mined_factors st) st of
        (Inl e, s1) \<Rightarrow> (Inl e, s1)
      | (Inr next_factor, s1) \<Rightarrow>
          if next_factor = []
          then (Inr Stop, log_warning ''no next factor generated, sub-loop ends'' s1)
          else
            (case simulate_factor E next_factor (log_info ''next factor expression'' s1) of
               (sim_result, s2) \<Rightarrow>
                 if sim_result = [] \<or> \<not> has_key sim_result ''alpha''
                 then (Inr Stop, log_warning ''simulation of the new factor failed, sub-loop ends'' s2)
                 else
                   (case check_factor E (dict_get sim_result ''alpha'' JNull) s2 of
                      (check_result, s3) \<Rightarrow>
                        if check_result = []
                        then (Inr Stop, log_warning ''check of the new factor failed, sub-loop ends'' s3)
                        else
                          (let factor_info =
                                 \<lparr>expression = next_factor, simulation = sim_result,
                                  check = check_result, dataset = ds\<rparr>;
                               s4 = s3\<lparr>mined_factors := mined_factors s3 @ [factor_info]\<rparr>
                           in case reaches_target check_result min_sh of
                                Inl e \<Rightarrow> (Inl e, s4)
                              | Inr True \<Rightarrow> (Inr Stop, log_info ''factor meets the target'' s4)
                              | Inr False \<Rightarrow> (Inr Next, s4)))))"

text \<open>
  \<^verbatim>\<open>while iteration < max_iterations\<close> with its \<^verbatim>\<open>try\<close>: an exception is logged and
  breaks. The first component of the result counts the passes through the body, which
  is what a bound on the sub-loop's iterations speaks of; the source keeps only
  \<open>iteration\<close>, the number of passes that ended at line 409.
\<close>

function improve_loop ::
  "env \<Rightarrow> int \<Rightarrow> rat \<Rightarrow> dataset_info \<Rightarrow> int \<Rightarrow> system \<Rightarrow> nat \<times> system" where
  "improve_loop E max_it min_sh ds iteration st =
     (if iteration < max_it then
        (case improve_body E min_sh ds st of
           (Inl e, s) \<Rightarrow> (1, log_error ''error in an improvement iteration'' s)
         | (Inr Stop, s) \<Rightarrow> (1, s)
         | (Inr Next, s) \<Rightarrow>
             (case improve_loop E max_it min_sh ds (iteration + 1) s of
                (n, s') \<Rightarrow> (Suc n, s')))
      else (0, st))"
  by pat_completeness auto
termination
  by (relation "measure (\<lambda>(E, max_it, min_sh, ds, iteration, st). nat (max_it - iteration))") auto

declare improve_loop.simps [simp del]

section \<open>The outer loop\<close>

text \<open>
  Lines 419 to 425: the periodic save and the cap. \<^verbatim>\<open>%\<close> by zero raises.
\<close>

definition checkpoint :: "env \<Rightarrow> config \<Rightarrow> system \<Rightarrow> (py_error + flow) \<times> system" where
  "checkpoint E cfg st =
     (if save_interval cfg = 0 then (Inl ZeroDivisionError, st)
      else
        (case (if int (length (mined_factors st)) mod save_interval cfg = 0
               then save_factors E st else (Inr (), st)) of
           (Inl e, s) \<Rightarrow> (Inl e, s)
         | (Inr u, s) \<Rightarrow>
             if max_factors cfg \<le> int (length (mined_factors s))
             then (Inr Stop, s) else (Inr Next, s)))"

text \<open>
  The body of the \<^verbatim>\<open>try\<close> at lines 322 to 425; \<open>Inl\<close> is an exception that reaches the
  handler of line 427.
\<close>

definition cycle_body ::
  "env \<Rightarrow> config \<Rightarrow> int \<Rightarrow> rat \<Rightarrow> system \<Rightarrow> (py_error + flow) \<times> system" where
  "cycle_body E cfg max_it min_sh st =
     (case select_dataset E st of
        (Inl e, s1) \<Rightarrow> (Inl e, s1)
      | (Inr ds, s1) \<Rightarrow>
          (case generate_initial_factor E s1 of
             (Inl e, s2) \<Rightarrow> (Inl e, s2)
           | (Inr factor_expr, s2) \<Rightarrow>
               if factor_expr = []
               then (Inr Next, log_warning ''no initial factor generated, cycle skipped'' s2)
               else
                 (case simulate_factor E factor_expr (log_info ''initial factor expression'' s2) of
                    (sim_result, s3) \<Rightarrow>
                      if sim_result = [] \<or> \<not> has_key sim_result ''alpha''
                      then (Inr Next, log_warning ''simulation of the factor failed, cycle skipped'' s3)
                      else
                        (case check_factor E (dict_get sim_result ''alpha'' JNull) s3 of
                           (check_result, s4) \<Rightarrow>
                             if check_result = []
                             then (Inr Next, log_warning ''check of the factor failed, cycle skipped'' s4)
                             else
                               (let factor_info =
                                      \<lparr>expression = factor_expr, simulation = sim_result,
                                       check = check_result, dataset = ds\<rparr>;
                                    s5 = s4\<lparr>mined_factors := mined_factors s4 @ [factor_info]\<rparr>;
                                    s6 = snd (improve_loop E max_it min_sh ds 0 s5)
                                in checkpoint E cfg s6)))))"

text \<open>One pass of the outer \<^verbatim>\<open>while\<close>: the handler of line 427 logs and breaks.\<close>

definition cycle :: "env \<Rightarrow> config \<Rightarrow> int \<Rightarrow> rat \<Rightarrow> system \<Rightarrow> flow \<times> system" where
  "cycle E cfg max_it min_sh st =
     (case cycle_body E cfg max_it min_sh st of
        (Inl e, s) \<Rightarrow> (Stop, log_error ''error in the main mining loop'' s)
      | (Inr f, s) \<Rightarrow> (f, s))"

text \<open>
  \<^verbatim>\<open>while len(self.mined_factors) < FACTOR_MINING_CONFIG['max_factors']\<close>. Nothing bounds
  the number of cycles (a cycle that is skipped appends nothing), so the loop takes
  fuel, one unit per cycle, and \<open>None\<close> says that the fuel ran out before the loop ended.
\<close>

fun mine_loop :: "nat \<Rightarrow> env \<Rightarrow> config \<Rightarrow> int \<Rightarrow> rat \<Rightarrow> system \<Rightarrow> system option" where
  "mine_loop 0 E cfg max_it min_sh st = None"
| "mine_loop (Suc fuel) E cfg max_it min_sh st =
     (if int (length (mined_factors st)) < max_factors cfg then
        (case cycle E cfg max_it min_sh st of
           (Stop, s) \<Rightarrow> Some s
         | (Next, s) \<Rightarrow> mine_loop fuel E cfg max_it min_sh s)
      else Some st)"

text \<open>
  \<^verbatim>\<open>mine_factors\<close>: how the call ends, and the system it leaves. \<^verbatim>\<open>initialize\<close> and
  the last \<^verbatim>\<open>save_factors\<close> stand outside every \<^verbatim>\<open>try\<close>.
\<close>

datatype outcome = Returned | Escaped py_error

definition mine_factors ::
  "nat \<Rightarrow> env \<Rightarrow> config \<Rightarrow> int option \<Rightarrow> rat option \<Rightarrow> system \<Rightarrow> (outcome \<times> system) option" where
  "mine_factors fuel E cfg max_iterations_arg min_sharpe_arg st =
     (let max_it = (case max_iterations_arg of None \<Rightarrow> max_iterations cfg | Some m \<Rightarrow> m);
          min_sh = (case min_sharpe_arg of None \<Rightarrow> min_sharpe cfg | Some m \<Rightarrow> m)
      in case initialize E st of
           (Inl e, s) \<Rightarrow> Some (Escaped e, s)
         | (Inr u, s) \<Rightarrow>
             (case mine_loop fuel E cfg max_it min_sh s of
                None \<Rightarrow> None
              | Some s' \<Rightarrow>
                  (case save_factors E s' of
                     (Inl e, s'') \<Rightarrow> Some (Escaped e, s'')
                   | (Inr u', s'') \<Rightarrow> Some (Returned, s''))))"

text \<open>\<^verbatim>\<open>FactorMiningSystem.__init__\<close>, before anything was done.\<close>

definition new_system :: "bool \<Rightarrow> system" where
  "new_system with_logger =
     \<lparr>logger = (if with_logger then Some [] else None), datasets_info = [],
      operators_info = [], mined_factors = [], current_dataset = None,
      tick = 0, snapshots = [], submitted = []\<rparr>"

section \<open>Properties of records and snapshots\<close>

text \<open>
  A record of a successful evaluation: its simulation result names an alpha and its
  check result is not empty.
\<close>

definition record_ok :: "factor_info \<Rightarrow> bool" where
  "record_ok r = (has_key (simulation r) ''alpha'' \<and> check r \<noteq> [])"

text \<open>A sequence whose length is a multiple of the save interval.\<close>

definition on_interval :: "config \<Rightarrow> factor_info list \<Rightarrow> bool" where
  "on_interval cfg xs = (save_interval cfg \<noteq> 0 \<and> int (length xs) mod save_interval cfg = 0)"

section \<open>Scenarios\<close>

text \<open>
  Concrete collaborators for the examples: a catalog of three datasets, one field
  \<open>close\<close>, a generator that selects the dataset \<open>sid\<close> and proposes \<open>rank(Close)\<close>,
  a simulation that returns an alpha id and a check whose first entry has the value \<open>v\<close>.
\<close>

definition ds_fundamental :: dataset_info where
  "ds_fundamental = \<lparr>ds_id = ''fundamental6'', ds_name = ''Company Fundamental Data''\<rparr>"

definition ds_pv :: dataset_info where
  "ds_pv = \<lparr>ds_id = ''pv1'', ds_name = ''Price Volume Data''\<rparr>"

definition ds_analyst :: dataset_info where
  "ds_analyst = \<lparr>ds_id = ''analyst4'', ds_name = ''Analyst Estimates''\<rparr>"

definition close_field :: field_info where
  "close_field = \<lparr>field_id = ''close'', description = ''daily close price''\<rparr>"

definition check_with :: "rat \<Rightarrow> pydict" where
  "check_with v =
     [(''is'', JObj [(''checks'', JArr [JObj [(''name'', JStr ''LOW_SHARPE''), (''value'', JNum v)]])])]"

definition scenario :: "string \<Rightarrow> rat \<Rightarrow> env" where
  "scenario sid v =
     \<lparr>search_datasets = Inr [ds_fundamental, ds_pv, ds_analyst],
      search_operators = Inr [''rank'', ''ts_mean''],
      make_request = (\<lambda>n. \<lparr>reply_selected_dataset = Some (JStr sid),
                            reply_reason = Some (JStr ''coverage''),
                            reply_factor_expression = Some ''rank(Close)''\<rparr>),
      get_datafields = (\<lambda>n. Fields_json [close_field]),
      wqbs_simulate = (\<lambda>n. Body (JObj [(''alpha'', JStr ''A1'')])),
      wqbs_check = (\<lambda>n. Body (check_with v)),
      file_write = (\<lambda>n. None)\<rparr>"

text \<open>The shipped settings with another cap and save interval.\<close>

definition settings :: "int \<Rightarrow> int \<Rightarrow> config" where
  "settings cap k = FACTOR_MINING_CONFIG\<lparr>max_factors := cap, save_interval := k\<rparr>"

text \<open>A system that was initialised on the scenario's catalog and has selected \<open>pv1\<close>.\<close>

definition ready_system :: system where
  "ready_system =
     (new_system False)\<lparr>datasets_info := [ds_fundamental, ds_pv, ds_analyst],
                         operators_info := [''rank'', ''ts_mean''],
                         current_dataset := Some ds_pv\<rparr>"

text \<open>Variations: the field listing fails once, at the second call of the run.\<close>

definition fields_down_once :: env where
  "fields_down_once =
     (scenario ''pv1'' 2)\<lparr>get_datafields :=
        (\<lambda>n. if n = 1 then Fields_raise RemoteError else Fields_json [close_field])\<rparr>"


text \<open>The first simulations answer without an alpha id, the later ones with one.\<close>

definition alpha_late :: env where
  "alpha_late =
     (scenario ''pv1'' 1)\<lparr>wqbs_simulate :=
        (\<lambda>n. if n < 5 then Body (JObj [(''error'', JStr ''syntax'')])
              else Body (JObj [(''alpha'', JStr ''A1'')]))\<rparr>"

text \<open>The generator selects a dataset but never proposes an expression.\<close>

definition silent_generator :: env where
  "silent_generator =
     (scenario ''pv1'' 1)\<lparr>make_request :=
        (\<lambda>n. \<lparr>reply_selected_dataset = Some (JStr ''pv1''), reply_reason = Some (JStr ''coverage''),
               reply_factor_expression = None\<rparr>)\<rparr>"

text \<open>The record the scenario's candidates produce.\<close>

definition accepted_record :: "rat \<Rightarrow> factor_info" where
  "accepted_record v =
     \<lparr>expression = ''rank(Close)'', simulation = [(''alpha'', JStr ''A1'')],
      check = check_with v, dataset = ds_pv\<rparr>"

section \<open>What each step leaves unchanged\<close>

lemma log_event_fields [simp]:
  "mined_factors (log_event l m st) = mined_factors st"
  "snapshots (log_event l m st) = snapshots st"
  "submitted (log_event l m st) = submitted st"
  "tick (log_event l m st) = tick st"
  "datasets_info (log_event l m st) = datasets_info st"
  "operators_info (log_event l m st) = operators_info st"
  "current_dataset (log_event l m st) = current_dataset st"
  by (simp_all add: log_event_def split: option.splits)

lemma called_fields [simp]:
  "mined_factors (called st) = mined_factors st"
  "snapshots (called st) = snapshots st"
  "submitted (called st) = submitted st"
  "tick (called st) = Suc (tick st)"
  "datasets_info (called st) = datasets_info st"
  "operators_info (called st) = operators_info st"
  "current_dataset (called st) = current_dataset st"
  "logger (called st) = logger st"
  by (simp_all add: called_def)

lemma select_dataset_frame:
  assumes "select_dataset E st = (r, s)"
  shows "mined_factors s = mined_factors st \<and> snapshots s = snapshots st
       \<and> datasets_info s = datasets_info st \<and> tick s = Suc (tick st)"
  using assms
  by (auto simp: select_dataset_def split: sum.splits option.splits list.splits)

lemma generate_initial_factor_frame:
  assumes "generate_initial_factor E st = (r, s)"
  shows "mined_factors s = mined_factors st \<and> snapshots s = snapshots st
       \<and> datasets_info s = datasets_info st \<and> current_dataset s = current_dataset st
       \<and> tick st \<le> tick s \<and> tick s \<le> tick st + 2"
  using assms
  by (auto simp: generate_initial_factor_def split: option.splits fields_result.splits)

lemma generate_next_factor_frame:
  assumes "generate_next_factor E prev st = (r, s)"
  shows "mined_factors s = mined_factors st \<and> snapshots s = snapshots st
       \<and> datasets_info s = datasets_info st \<and> current_dataset s = current_dataset st
       \<and> tick st \<le> tick s \<and> tick s \<le> tick st + 2"
  using assms
  by (auto simp: generate_next_factor_def split: option.splits fields_result.splits)

lemma simulate_factor_frame:
  assumes "simulate_factor E x st = (r, s)"
  shows "mined_factors s = mined_factors st \<and> snapshots s = snapshots st
       \<and> datasets_info s = datasets_info st \<and> current_dataset s = current_dataset st
       \<and> tick st \<le> tick s \<and> tick s \<le> tick st + 2"
  using assms
  by (auto simp: simulate_factor_def Let_def split: option.splits fields_result.splits http.splits json.splits if_splits)

lemma check_factor_frame:
  assumes "check_factor E a st = (r, s)"
  shows "mined_factors s = mined_factors st \<and> snapshots s = snapshots st
       \<and> datasets_info s = datasets_info st \<and> current_dataset s = current_dataset st
       \<and> tick s = Suc (tick st)"
  using assms
  by (auto simp: check_factor_def split: http.splits)

lemma save_factors_frame:
  assumes "save_factors E st = (r, s)"
  shows "mined_factors s = mined_factors st \<and> datasets_info s = datasets_info st
       \<and> current_dataset s = current_dataset st \<and> tick s = Suc (tick st)
       \<and> snapshots s = (if r = Inr () then snapshots st @ [mined_factors st] else snapshots st)"
  using assms
  by (auto simp: save_factors_def split: option.splits)



lemma improve_body_effect:
  assumes "improve_body E ms ds st = (r, s)"
  shows "snapshots s = snapshots st \<and> datasets_info s = datasets_info st
       \<and> current_dataset s = current_dataset st
       \<and> tick st \<le> tick s \<and> tick s \<le> tick st + 5
       \<and> ((mined_factors s = mined_factors st \<and> r \<noteq> Inr Next)
          \<or> (\<exists>x. mined_factors s = mined_factors st @ [x] \<and> record_ok x \<and> dataset x = ds
                 \<and> r = map_sum id (\<lambda>b. if b then Stop else Next) (reaches_target (check x) ms)))"
proof -
  obtain g s1 where g: "generate_next_factor E (mined_factors st) st = (g, s1)"
    by (cases "generate_next_factor E (mined_factors st) st")
  note f1 = generate_next_factor_frame [OF g]
  show ?thesis
  proof (cases g)
    case (Inl e)
    with assms g f1 show ?thesis by (auto simp add: improve_body_def)
  next
    case (Inr nf)
    show ?thesis
    proof (cases "nf = []")
      case True
      with assms g f1 Inr show ?thesis by (auto simp add: improve_body_def)
    next
      case False
      obtain sim s2 where sm: "simulate_factor E nf (log_info ''next factor expression'' s1) = (sim, s2)"
        by (cases "simulate_factor E nf (log_info ''next factor expression'' s1)")
      note f2 = simulate_factor_frame [OF sm]
      show ?thesis
      proof (cases "sim = [] \<or> \<not> has_key sim ''alpha''")
        case True
        with assms g f1 Inr False sm f2 show ?thesis by (auto simp add: improve_body_def)
      next
        case nofail: False
        obtain chk s3 where ck: "check_factor E (dict_get sim ''alpha'' JNull) s2 = (chk, s3)"
          by (cases "check_factor E (dict_get sim ''alpha'' JNull) s2")
        note f3 = check_factor_frame [OF ck]
        show ?thesis
        proof (cases "chk = []")
          case True
          with assms g f1 Inr False sm f2 nofail ck f3 show ?thesis by (auto simp add: improve_body_def)
        next
          case chk: False
          with assms g f1 Inr False sm f2 nofail ck f3 show ?thesis
            by (auto simp add: improve_body_def Let_def record_ok_def split: sum.splits bool.splits)
        qed
      qed
    qed
  qed
qed


lemma improve_loop_effect:
  "improve_loop E mi ms ds it st = (n, s) \<Longrightarrow>
     n \<le> nat (mi - it) \<and> snapshots s = snapshots st \<and> datasets_info s = datasets_info st
     \<and> current_dataset s = current_dataset st
     \<and> tick st \<le> tick s \<and> tick s \<le> tick st + 5 * n
     \<and> (\<exists>new. mined_factors s = mined_factors st @ new \<and> length new \<le> n
              \<and> list_all record_ok new \<and> list_all (\<lambda>x. dataset x = ds) new)"
proof (induction E mi ms ds it st arbitrary: n s rule: improve_loop.induct)
  case (1 E max_it min_sh ds iteration st)
  show ?case
  proof (cases "iteration < max_it")
    case False
    with "1.prems" show ?thesis by (simp add: improve_loop.simps)
  next
    case True
    obtain r s1 where b: "improve_body E min_sh ds st = (r, s1)"
      by (cases "improve_body E min_sh ds st")
    note eff = improve_body_effect [OF b]
    show ?thesis
    proof (cases "r = Inr Next")
      case False
      with "1.prems" True b have ns: "n = 1" "s = s1 \<or> (\<exists>m. s = log_error m s1)"
        by (auto simp: improve_loop.simps split: sum.splits flow.splits)
      from True have pos: "1 \<le> nat (max_it - iteration)" by simp
      from eff have "(\<exists>new. mined_factors s1 = mined_factors st @ new \<and> length new \<le> 1
              \<and> list_all record_ok new \<and> list_all (\<lambda>x. dataset x = ds) new)"
      proof (elim conjE disjE exE)
        assume "mined_factors s1 = mined_factors st"
        then have "mined_factors s1 = mined_factors st @ [] \<and> length ([] :: factor_info list) \<le> 1
              \<and> list_all record_ok [] \<and> list_all (\<lambda>x. dataset x = ds) []" by simp
        then show ?thesis by blast
      next
        fix x assume "mined_factors s1 = mined_factors st @ [x]" "record_ok x" "dataset x = ds"
        then have "mined_factors s1 = mined_factors st @ [x] \<and> length [x] \<le> 1
              \<and> list_all record_ok [x] \<and> list_all (\<lambda>x. dataset x = ds) [x]" by simp
        then show ?thesis by blast
      qed
      with eff ns pos show ?thesis by auto
    next
      case Next: True
      obtain n' s' where rec: "improve_loop E max_it min_sh ds (iteration + 1) s1 = (n', s')"
        by (cases "improve_loop E max_it min_sh ds (iteration + 1) s1")
      with "1.prems" True b Next have ns: "n = Suc n'" "s = s'"
        by (auto simp: improve_loop.simps)
      from Next have "r = Inr Next" .
      note ih = "1.IH" [OF True b [symmetric] this refl rec]
      from ih have "n' \<le> nat (max_it - (iteration + 1))" by blast
      with True have le: "Suc n' \<le> nat (max_it - iteration)" by arith
      from eff Next obtain x where x: "mined_factors s1 = mined_factors st @ [x]" "record_ok x" "dataset x = ds"
        by auto
      from ih obtain new where new: "mined_factors s' = mined_factors s1 @ new" "length new \<le> n'"
          "list_all record_ok new" "list_all (\<lambda>x. dataset x = ds) new"
        by auto
      have "mined_factors s' = mined_factors st @ (x # new) \<and> length (x # new) \<le> Suc n'
          \<and> list_all record_ok (x # new) \<and> list_all (\<lambda>x. dataset x = ds) (x # new)"
        using x new by simp
      then have ex: "\<exists>new. mined_factors s' = mined_factors st @ new \<and> length new \<le> Suc n'
          \<and> list_all record_ok new \<and> list_all (\<lambda>x. dataset x = ds) new"
        by blast
      from eff ih have "snapshots s' = snapshots st \<and> datasets_info s' = datasets_info st
          \<and> current_dataset s' = current_dataset st \<and> tick st \<le> tick s' \<and> tick s' \<le> tick st + 5 * Suc n'"
        by auto
      with le ex ns show ?thesis by simp
    qed
  qed
qed



lemma checkpoint_effect:
  assumes "checkpoint E cfg st = (r, s)"
  shows "mined_factors s = mined_factors st \<and> datasets_info s = datasets_info st
       \<and> (snapshots s = snapshots st
          \<or> (snapshots s = snapshots st @ [mined_factors st] \<and> on_interval cfg (mined_factors st)))"
proof (cases "save_interval cfg = 0")
  case True
  with assms show ?thesis by (simp add: checkpoint_def)
next
  case False
  show ?thesis
  proof (cases "int (length (mined_factors st)) mod save_interval cfg = 0")
    case no: False
    with assms False show ?thesis by (auto simp: checkpoint_def split: if_splits)
  next
    case True
    obtain r' s' where sv: "save_factors E st = (r', s')" by (cases "save_factors E st")
    note f = save_factors_frame [OF sv]
    from assms False True sv have "s = s'"
      by (cases r') (auto simp: checkpoint_def split: if_splits)
    with f False True show ?thesis by (auto simp: on_interval_def)
  qed
qed

lemma cycle_body_effect:
  assumes "cycle_body E cfg mi ms st = (r, s)"
  shows "datasets_info s = datasets_info st
       \<and> (\<exists>new. mined_factors s = mined_factors st @ new \<and> list_all record_ok new
              \<and> length new \<le> 1 + nat mi)
       \<and> (snapshots s = snapshots st
          \<or> (snapshots s = snapshots st @ [mined_factors s] \<and> on_interval cfg (mined_factors s)))"
proof -
  have triv: "\<And>s'. mined_factors s' = mined_factors st \<Longrightarrow>
      \<exists>new. mined_factors s' = mined_factors st @ new \<and> list_all record_ok new \<and> length new \<le> 1 + nat mi"
    by simp
  obtain d s1 where sel: "select_dataset E st = (d, s1)" by (cases "select_dataset E st")
  note f1 = select_dataset_frame [OF sel]
  show ?thesis
  proof (cases d)
    case (Inl e)
    with assms sel f1 triv show ?thesis by (auto simp: cycle_body_def)
  next
    case (Inr ds)
    obtain g s2 where gen: "generate_initial_factor E s1 = (g, s2)"
      by (cases "generate_initial_factor E s1")
    note f2 = generate_initial_factor_frame [OF gen]
    show ?thesis
    proof (cases g)
      case (Inl e)
      with assms sel f1 Inr gen f2 triv show ?thesis by (auto simp: cycle_body_def)
    next
      case gr: (Inr fe)
      show ?thesis
      proof (cases "fe = []")
        case True
        with assms sel f1 Inr gen f2 gr triv show ?thesis by (auto simp: cycle_body_def)
      next
        case fe: False
        obtain sim s3 where sm: "simulate_factor E fe (log_info ''initial factor expression'' s2) = (sim, s3)"
          by (cases "simulate_factor E fe (log_info ''initial factor expression'' s2)")
        note f3 = simulate_factor_frame [OF sm]
        show ?thesis
        proof (cases "sim = [] \<or> \<not> has_key sim ''alpha''")
          case True
          with assms sel f1 Inr gen f2 gr fe sm f3 triv show ?thesis by (auto simp: cycle_body_def)
        next
          case simok: False
          obtain chk s4 where ck: "check_factor E (dict_get sim ''alpha'' JNull) s3 = (chk, s4)"
            by (cases "check_factor E (dict_get sim ''alpha'' JNull) s3")
          note f4 = check_factor_frame [OF ck]
          show ?thesis
          proof (cases "chk = []")
            case True
            with assms sel f1 Inr gen f2 gr fe sm f3 simok ck f4 triv show ?thesis
              by (auto simp: cycle_body_def)
          next
            case chk: False
            define x where "x = \<lparr>expression = fe, simulation = sim, check = chk, dataset = ds\<rparr>"
            define s5 where "s5 = s4\<lparr>mined_factors := mined_factors s4 @ [x]\<rparr>"
            obtain n s6 where lp: "improve_loop E mi ms ds 0 s5 = (n, s6)"
              by (cases "improve_loop E mi ms ds 0 s5")
            note f6 = improve_loop_effect [OF lp]
            from assms sel Inr gen gr fe sm simok ck chk lp
            have cp: "checkpoint E cfg s6 = (r, s)"
              by (simp add: cycle_body_def Let_def x_def s5_def)
            note f7 = checkpoint_effect [OF cp]
            from f6 obtain new where new: "mined_factors s6 = mined_factors s5 @ new" "length new \<le> n"
                "list_all record_ok new" by blast
            have okx: "record_ok x" using simok chk by (simp add: record_ok_def x_def)
            from f6 have "n \<le> nat mi" by simp
            with new okx f1 f2 f3 f4 f7
            have "mined_factors s = mined_factors st @ (x # new) \<and> list_all record_ok (x # new)
                \<and> length (x # new) \<le> 1 + nat mi"
              by (simp add: s5_def)
            then have A: "\<exists>new. mined_factors s = mined_factors st @ new \<and> list_all record_ok new
                \<and> length new \<le> 1 + nat mi" by blast
            from f1 f2 f3 f4 f6 f7 have B: "datasets_info s = datasets_info st
               \<and> (snapshots s = snapshots st
                   \<or> (snapshots s = snapshots st @ [mined_factors s] \<and> on_interval cfg (mined_factors s)))"
              by (auto simp: s5_def)
            from A B show ?thesis by blast
          qed
        qed
      qed
    qed
  qed
qed


lemma cycle_effect:
  assumes "cycle E cfg mi ms st = (f, s)"
  shows "datasets_info s = datasets_info st
       \<and> (\<exists>new. mined_factors s = mined_factors st @ new \<and> list_all record_ok new
              \<and> length new \<le> 1 + nat mi)
       \<and> (snapshots s = snapshots st
          \<or> (snapshots s = snapshots st @ [mined_factors s] \<and> on_interval cfg (mined_factors s)))"
proof -
  obtain r s0 where b: "cycle_body E cfg mi ms st = (r, s0)" by (cases "cycle_body E cfg mi ms st")
  from assms b have "s = s0 \<or> (\<exists>m. s = log_error m s0)"
    by (auto simp: cycle_def split: sum.splits)
  with cycle_body_effect [OF b] show ?thesis by auto
qed

lemma mine_loop_effect:
  "mine_loop fuel E cfg mi ms st = Some s \<Longrightarrow>
     datasets_info s = datasets_info st
     \<and> (\<exists>new. mined_factors s = mined_factors st @ new \<and> list_all record_ok new)
     \<and> (\<exists>snaps. snapshots s = snapshots st @ snaps \<and> list_all (on_interval cfg) snaps)"
proof (induction fuel arbitrary: st)
  case 0
  then show ?case by simp
next
  case (Suc fuel)
  show ?case
  proof (cases "int (length (mined_factors st)) < max_factors cfg")
    case False
    with Suc.prems have "s = st" by simp
    then show ?thesis by simp
  next
    case True
    obtain f s1 where c: "cycle E cfg mi ms st = (f, s1)" by (cases "cycle E cfg mi ms st")
    from cycle_effect [OF c] obtain new1 where
      d1: "datasets_info s1 = datasets_info st" and
      m1: "mined_factors s1 = mined_factors st @ new1" "list_all record_ok new1" and
      sn: "snapshots s1 = snapshots st
          \<or> (snapshots s1 = snapshots st @ [mined_factors s1] \<and> on_interval cfg (mined_factors s1))"
      by blast
    from sn obtain snaps1 where
      s1: "snapshots s1 = snapshots st @ snaps1" "list_all (on_interval cfg) snaps1"
    proof
      assume "snapshots s1 = snapshots st"
      then have "snapshots s1 = snapshots st @ []" "list_all (on_interval cfg) []" by simp_all
      then show ?thesis by (rule that)
    next
      assume "snapshots s1 = snapshots st @ [mined_factors s1] \<and> on_interval cfg (mined_factors s1)"
      then have "snapshots s1 = snapshots st @ [mined_factors s1]"
          "list_all (on_interval cfg) [mined_factors s1]" by simp_all
      then show ?thesis by (rule that)
    qed
    show ?thesis
    proof (cases f)
      case Stop
      with Suc.prems True c have "s = s1" by simp
      with d1 m1 s1 show ?thesis by blast
    next
      case Next
      with Suc.prems True c have "mine_loop fuel E cfg mi ms s1 = Some s" by simp
      from Suc.IH [OF this] obtain new2 snaps2 where
        d2: "datasets_info s = datasets_info s1" and
        m2: "mined_factors s = mined_factors s1 @ new2" "list_all record_ok new2" and
        s2: "snapshots s = snapshots s1 @ snaps2" "list_all (on_interval cfg) snaps2"
        by blast
      have "mined_factors s = mined_factors st @ (new1 @ new2) \<and> list_all record_ok (new1 @ new2)"
        using m1 m2 by simp
      moreover have "snapshots s = snapshots st @ (snaps1 @ snaps2) \<and> list_all (on_interval cfg) (snaps1 @ snaps2)"
        using s1 s2 by simp
      ultimately show ?thesis using d1 d2 by (metis (no_types))
    qed
  qed
qed

lemma mine_loop_overshoot_bound:
  "mine_loop fuel E cfg max_it min_sh st = Some s \<Longrightarrow>
     int (length (mined_factors s))
       \<le> max (int (length (mined_factors st))) (max_factors cfg + int (nat max_it))"
proof (induction fuel arbitrary: st)
  case 0
  then show ?case by simp
next
  case (Suc fuel)
  show ?case
  proof (cases "int (length (mined_factors st)) < max_factors cfg")
    case False
    with Suc.prems show ?thesis by simp
  next
    case True
    obtain f s1 where c: "cycle E cfg max_it min_sh st = (f, s1)"
      by (cases "cycle E cfg max_it min_sh st")
    from cycle_effect [OF c] obtain new where
      new: "mined_factors s1 = mined_factors st @ new" "length new \<le> 1 + nat max_it" by blast
    from new(1) have "int (length (mined_factors s1))
        = int (length (mined_factors st)) + int (length new)" by simp
    moreover from new(2) have "int (length new) \<le> 1 + int (nat max_it)" by linarith
    ultimately have b: "int (length (mined_factors s1)) \<le> max_factors cfg + int (nat max_it)"
      using True by linarith
    show ?thesis
    proof (cases f)
      case Stop
      with Suc.prems True c have "s = s1" by simp
      with b show ?thesis by simp
    next
      case Next
      with Suc.prems True c have "mine_loop fuel E cfg max_it min_sh s1 = Some s" by simp
      from Suc.IH [OF this] b show ?thesis by simp
    qed
  qed
qed

lemma mine_loop_more_fuel:
  "mine_loop fuel E cfg mi ms st = Some s \<Longrightarrow> mine_loop (fuel + k) E cfg mi ms st = Some s"
proof (induction fuel arbitrary: st)
  case 0
  then show ?case by simp
next
  case (Suc fuel)
  then show ?case by (auto split: if_splits prod.splits flow.splits)
qed

section \<open>Snapshots, the acceptance test and a run that never ends\<close>



lemma target_reached_stops:
  assumes "iteration < max_it"
    and "improve_body E min_sh ds st = (r, s)"
    and "mined_factors s = mined_factors st @ [x]"
    and "reaches_target (check x) min_sh = Inr True"
  shows "r = Inr Stop \<and> improve_loop E max_it min_sh ds iteration st = (1, s)"
proof -
  from improve_body_effect [OF assms(2)] assms(3,4) have "r = Inr Stop" by auto
  with assms(1,2) show ?thesis by (simp add: improve_loop.simps)
qed

lemma silent_generator_cycle:
  assumes "datasets_info st = [ds_fundamental, ds_pv, ds_analyst]"
  shows "\<exists>s. cycle silent_generator cfg max_it min_sh st = (Next, s)
           \<and> datasets_info s = datasets_info st \<and> mined_factors s = mined_factors st"
  using assms
  by (simp add: cycle_def cycle_body_def select_dataset_def ai_select_dataset_def
      generate_initial_factor_def ai_generate_initial_factor_def silent_generator_def scenario_def
      ds_fundamental_def ds_pv_def ds_analyst_def)

lemma silent_generator_never_ends:
  assumes "datasets_info st = [ds_fundamental, ds_pv, ds_analyst]"
    and "int (length (mined_factors st)) < max_factors cfg"
  shows "mine_loop fuel silent_generator cfg max_it min_sh st = None"
  using assms
proof (induction fuel arbitrary: st)
  case 0
  show ?case by simp
next
  case (Suc fuel)
  from silent_generator_cycle [OF Suc.prems(1)] obtain s where
    s: "cycle silent_generator cfg max_it min_sh st = (Next, s)"
       "datasets_info s = datasets_info st" "mined_factors s = mined_factors st" by blast
  with Suc.prems have "mine_loop fuel silent_generator cfg max_it min_sh s = None"
    by (intro Suc.IH) simp_all
  with s Suc.prems show ?case by simp
qed


section \<open>Runs in which every candidate passes below the target\<close>

lemma scenario_pass:
  assumes "current_dataset st \<noteq> None" and "v < m"
  shows "\<exists>s. improve_body (scenario sid v) m ds st = (Inr Next, s)
           \<and> length (mined_factors s) = Suc (length (mined_factors st))
           \<and> datasets_info s = datasets_info st \<and> current_dataset s = current_dataset st
           \<and> snapshots s = snapshots st"
  using assms
  by (auto simp: improve_body_def generate_next_factor_def ai_generate_next_factor_def
      simulate_factor_def check_factor_def scenario_def Let_def has_key_def dict_get_def
      check_with_def reaches_target_def primary_score_def json_get_def first_item_def ge_float_def)

lemma scenario_rounds:
  assumes "current_dataset st \<noteq> None" and "v < m"
  shows "\<exists>s. improve_loop (scenario sid v) mi m ds it st = (nat (mi - it), s)
           \<and> length (mined_factors s) = length (mined_factors st) + nat (mi - it)
           \<and> datasets_info s = datasets_info st \<and> current_dataset s = current_dataset st
           \<and> snapshots s = snapshots st"
  using assms
proof (induction "scenario sid v" mi m ds it st rule: improve_loop.induct)
  case (1 max_it min_sh ds iteration st)
  show ?case
  proof (cases "iteration < max_it")
    case False
    then show ?thesis by (simp add: improve_loop.simps)
  next
    case True
    from scenario_pass [OF "1.prems"] obtain s1 where
      b: "improve_body (scenario sid v) min_sh ds st = (Inr Next, s1)"
      and s1: "length (mined_factors s1) = Suc (length (mined_factors st))"
        "datasets_info s1 = datasets_info st" "current_dataset s1 = current_dataset st"
        "snapshots s1 = snapshots st"
      by blast
    from s1 "1.prems" have "current_dataset s1 \<noteq> None" by simp
    from "1.hyps" [OF True b [symmetric] refl refl this "1.prems"(2)] obtain s where
      l: "improve_loop (scenario sid v) max_it min_sh ds (iteration + 1) s1 = (nat (max_it - (iteration + 1)), s)"
      and s: "length (mined_factors s) = length (mined_factors s1) + nat (max_it - (iteration + 1))"
        "datasets_info s = datasets_info s1" "current_dataset s = current_dataset s1"
        "snapshots s = snapshots s1"
      by blast
    from True have n: "Suc (nat (max_it - (iteration + 1))) = nat (max_it - iteration)" by arith
    from True b l n have "improve_loop (scenario sid v) max_it min_sh ds iteration st
        = (nat (max_it - iteration), s)"
      by (simp add: improve_loop.simps)
    with s s1 n show ?thesis by auto
  qed
qed


lemma scenario_select:
  assumes "datasets_info st = [ds_fundamental, ds_pv, ds_analyst]"
  shows "select_dataset (scenario ''pv1'' v) st
       = (Inr ds_pv, log_info ''dataset selected by the AI'' (called st\<lparr>current_dataset := Some ds_pv\<rparr>))"
  using assms
  by (simp add: select_dataset_def ai_select_dataset_def scenario_def
      ds_fundamental_def ds_pv_def ds_analyst_def)

lemma scenario_generate:
  assumes "current_dataset st = Some d"
  shows "generate_initial_factor (scenario sid v) st = (Inr ''rank(Close)'', called (called st))"
  using assms
  by (simp add: generate_initial_factor_def ai_generate_initial_factor_def scenario_def)

lemma scenario_simulate:
  assumes "current_dataset st = Some d"
  shows "fst (simulate_factor (scenario sid v) e st) = [(''alpha'', JStr ''A1'')]"
  using assms
  by (simp add: simulate_factor_def scenario_def Let_def has_key_def)

lemma scenario_check:
  "fst (check_factor (scenario sid v) a st) = check_with v"
  by (simp add: check_factor_def scenario_def)

lemma scenario_cycle:
  assumes "datasets_info st = [ds_fundamental, ds_pv, ds_analyst]" and "v < m"
    and "save_interval cfg \<noteq> 0"
  shows "\<exists>s. cycle (scenario ''pv1'' v) cfg mi m st
             = (if max_factors cfg \<le> int (length (mined_factors st)) + 1 + int (nat mi)
                then Stop else Next, s)
           \<and> int (length (mined_factors s)) = int (length (mined_factors st)) + 1 + int (nat mi)
           \<and> datasets_info s = datasets_info st"
proof -
  define E where "E = scenario ''pv1'' v"
  define x where "x = \<lparr>expression = ''rank(Close)'', simulation = [(''alpha'', JStr ''A1'')],
      check = check_with v, dataset = ds_pv\<rparr>"
  define s1 where "s1 = log_info ''dataset selected by the AI'' (called st\<lparr>current_dataset := Some ds_pv\<rparr>)"
  define s2 where "s2 = log_info ''initial factor expression'' (called (called s1))"
  have sel: "select_dataset E st = (Inr ds_pv, s1)"
    unfolding E_def s1_def by (rule scenario_select [OF assms(1)])
  have c1: "current_dataset s1 = Some ds_pv" by (simp add: s1_def)
  have gen: "generate_initial_factor E s1 = (Inr ''rank(Close)'', called (called s1))"
    unfolding E_def by (rule scenario_generate [OF c1])
  have c2: "current_dataset s2 = Some ds_pv" using c1 by (simp add: s2_def)
  obtain s3 where sim: "simulate_factor E ''rank(Close)'' s2 = ([(''alpha'', JStr ''A1'')], s3)"
    using scenario_simulate [OF c2, of "''pv1''" v "''rank(Close)''"]
    by (cases "simulate_factor E ''rank(Close)'' s2") (simp add: E_def)
  note f3 = simulate_factor_frame [OF sim]
  obtain s4 where chk: "check_factor E (JStr ''A1'') s3 = (check_with v, s4)"
    using scenario_check [of "''pv1''" v "JStr ''A1''" s3]
    by (cases "check_factor E (JStr ''A1'') s3") (simp add: E_def)
  note f4 = check_factor_frame [OF chk]
  define s5 where "s5 = s4\<lparr>mined_factors := mined_factors s4 @ [x]\<rparr>"
  have nonempty: "check_with v \<noteq> []" by (simp add: check_with_def)
  have body: "cycle_body E cfg mi m st = checkpoint E cfg (snd (improve_loop E mi m ds_pv 0 s5))"
    using sel gen sim chk nonempty
    by (simp add: cycle_body_def s2_def has_key_def dict_get_def Let_def s5_def x_def)
  have "current_dataset s5 \<noteq> None" using f3 f4 c2 by (simp add: s5_def)
  from scenario_rounds [OF this assms(2), of "''pv1''" mi ds_pv 0] obtain s6 where
    l: "improve_loop E mi m ds_pv 0 s5 = (nat mi, s6)"
    and s6: "length (mined_factors s6) = length (mined_factors s5) + nat mi"
      "datasets_info s6 = datasets_info s5"
    by (auto simp: E_def)
  have m5: "length (mined_factors s5) = Suc (length (mined_factors st))"
      and d5: "datasets_info s5 = datasets_info st"
    using f3 f4 by (simp_all add: s5_def s2_def s1_def)
  have len6: "int (length (mined_factors s6)) = int (length (mined_factors st)) + 1 + int (nat mi)"
    using s6 m5 by simp
  have fw: "file_write E n = None" for n by (simp add: E_def scenario_def)
  obtain r s7 where cp: "checkpoint E cfg s6 = (r, s7)" by (cases "checkpoint E cfg s6")
  from cp assms(3) fw have
    r: "r = Inr (if max_factors cfg \<le> int (length (mined_factors s6)) then Stop else Next)"
    and s7: "mined_factors s7 = mined_factors s6" "datasets_info s7 = datasets_info s6"
    by (auto simp: checkpoint_def save_factors_def split: if_splits)
  from body l cp r have "cycle E cfg mi m st
      = (if max_factors cfg \<le> int (length (mined_factors s6)) then Stop else Next, s7)"
    by (simp add: cycle_def)
  with len6 s7 s6 d5 show ?thesis by (auto simp: E_def)
qed

lemma scenario_loop:
  assumes "datasets_info st = [ds_fundamental, ds_pv, ds_analyst]" and "v < m"
    and "save_interval cfg \<noteq> 0"
    and "int (length (mined_factors st)) < max_factors cfg"
    and "max_factors cfg \<le> int (length (mined_factors st)) + int fuel * (1 + int (nat mi))"
  shows "\<exists>s. mine_loop fuel (scenario ''pv1'' v) cfg mi m st = Some s
           \<and> max_factors cfg \<le> int (length (mined_factors s))
           \<and> int (length (mined_factors s)) < max_factors cfg + 1 + int (nat mi)
           \<and> (1 + int (nat mi)) dvd (int (length (mined_factors s)) - int (length (mined_factors st)))"
  using assms
proof (induction fuel arbitrary: st)
  case 0
  then show ?case by simp
next
  case (Suc fuel)
  define step where "step = 1 + int (nat mi)"
  from scenario_cycle [OF Suc.prems(1-3), of mi] obtain s1 where
    c: "cycle (scenario ''pv1'' v) cfg mi m st
          = (if max_factors cfg \<le> int (length (mined_factors st)) + step then Stop else Next, s1)"
    and len1: "int (length (mined_factors s1)) = int (length (mined_factors st)) + step"
    and d1: "datasets_info s1 = datasets_info st"
    by (auto simp: step_def add.assoc)
  show ?case
  proof (cases "max_factors cfg \<le> int (length (mined_factors st)) + step")
    case True
    with c Suc.prems(4) have "mine_loop (Suc fuel) (scenario ''pv1'' v) cfg mi m st = Some s1"
      by simp
    moreover have "step dvd (int (length (mined_factors s1)) - int (length (mined_factors st)))"
      using len1 by simp
    ultimately show ?thesis using True len1 Suc.prems(4) by (auto simp: step_def)
  next
    case False
    with c Suc.prems(4) have eq: "mine_loop (Suc fuel) (scenario ''pv1'' v) cfg mi m st
        = mine_loop fuel (scenario ''pv1'' v) cfg mi m s1" by simp
    from False len1 have lt: "int (length (mined_factors s1)) < max_factors cfg" by simp
    from Suc.prems(5) len1 have enough:
      "max_factors cfg \<le> int (length (mined_factors s1)) + int fuel * (1 + int (nat mi))"
      by (simp add: step_def algebra_simps)
    from d1 Suc.prems(1) have d: "datasets_info s1 = [ds_fundamental, ds_pv, ds_analyst]" by simp
    from Suc.IH [OF d Suc.prems(2,3) lt enough] obtain s where
      s: "mine_loop fuel (scenario ''pv1'' v) cfg mi m s1 = Some s"
        "max_factors cfg \<le> int (length (mined_factors s))"
        "int (length (mined_factors s)) < max_factors cfg + 1 + int (nat mi)"
        "step dvd (int (length (mined_factors s)) - int (length (mined_factors s1)))"
      by (auto simp: step_def)
    from s(4) len1 have "step dvd (int (length (mined_factors s)) - int (length (mined_factors st)))"
    proof -
      have e: "int (length (mined_factors s)) - int (length (mined_factors st))
          = (int (length (mined_factors s)) - int (length (mined_factors s1))) + step"
        using len1 by simp
      from s(4) have "step dvd (int (length (mined_factors s)) - int (length (mined_factors s1))) + step"
        by (rule dvd_add) simp
      then show ?thesis by (simp only: e)
    qed
    with eq s show ?thesis by (auto simp: step_def)
  qed
qed

section \<open>The claims\<close>

subsection \<open>Field-name casing\<close>

text \<open>
  C1 says that an identifier of the catalog that occurs in the expression in another
  casing is submitted in the catalog's casing, \<open>Close\<close> as \<open>close\<close>. The code does not do
  that: for the catalog field \<open>close\<close> the test \<^verbatim>\<open>field_id in factor_expr.lower()\<close> succeeds,
  but \<^verbatim>\<open>factor_expr.replace('close', 'close')\<close> searches the expression as written and
  leaves \<open>Close\<close> alone, so \<open>rank(Close)\<close> is what \<^verbatim>\<open>wqbs.simulate\<close> receives.
\<close>

theorem simulate_factor_submits_foreign_case:
  "submitted (snd (simulate_factor (scenario ''pv1'' 1) ''rank(Close)'' ready_system))
     = [''rank(Close)'']"
  by code_simp

subsection \<open>The cap on the number of records\<close>

text \<open>
  C2 says that the sequence never grows beyond \<open>max_factors\<close>. The cap is tested before
  a cycle and after its improvement sub-loop, not inside the sub-loop. With the settings
  as shipped (cap 100, ten improvement rounds, target 1.5), when every seed and every
  revision passes the simulation and the check with a score of 1, each cycle appends 11
  records: the tenth cycle starts at 99 and the run returns with 110.
\<close>

theorem shipped_settings_overshoot:
  "max_factors FACTOR_MINING_CONFIG = 100
   \<and> (\<exists>s. mine_factors 10 (scenario ''pv1'' 1) FACTOR_MINING_CONFIG None None (new_system False)
            = Some (Returned, s)
          \<and> length (mined_factors s) = 110)"
proof -
  define E where "E = scenario ''pv1'' 1"
  define s0 where "s0 = snd (initialize E (new_system False))"
  have i: "initialize E (new_system False) = (Inr (), s0)"
    and d0: "datasets_info s0 = [ds_fundamental, ds_pv, ds_analyst]"
    and m0: "mined_factors s0 = []"
    by (simp_all add: s0_def initialize_def E_def scenario_def new_system_def)
  have cfgv: "max_iterations FACTOR_MINING_CONFIG = 10" "min_sharpe FACTOR_MINING_CONFIG = 1.5"
      "max_factors FACTOR_MINING_CONFIG = 100" "save_interval FACTOR_MINING_CONFIG = 10"
    by (simp_all add: FACTOR_MINING_CONFIG_def)
  have "\<exists>s. mine_loop 10 (scenario ''pv1'' 1) FACTOR_MINING_CONFIG 10 1.5 s0 = Some s
           \<and> max_factors FACTOR_MINING_CONFIG \<le> int (length (mined_factors s))
           \<and> int (length (mined_factors s)) < max_factors FACTOR_MINING_CONFIG + 1 + int (nat 10)
           \<and> (1 + int (nat 10)) dvd (int (length (mined_factors s)) - int (length (mined_factors s0)))"
    by (rule scenario_loop) (simp_all add: d0 m0 cfgv)
  then obtain s1 where l: "mine_loop 10 E FACTOR_MINING_CONFIG 10 1.5 s0 = Some s1"
    and b: "100 \<le> int (length (mined_factors s1))" "int (length (mined_factors s1)) < 111"
      "11 dvd int (length (mined_factors s1))"
    by (auto simp: cfgv m0 E_def)
  from b have "int (length (mined_factors s1)) = 110" by presburger
  then have len: "length (mined_factors s1) = 110" by simp
  have fw: "file_write E n = None" for n by (simp add: E_def scenario_def)
  from i l fw have "mine_factors 10 E FACTOR_MINING_CONFIG None None (new_system False)
      = Some (Returned, log_info ''factors saved to file''
          (called (s1\<lparr>snapshots := snapshots s1 @ [mined_factors s1]\<rparr>)))"
    by (simp add: mine_factors_def cfgv save_factors_def)
  with len cfgv(3) show ?thesis by (auto simp: E_def)
qed

text \<open>The same on small numbers: a cap of 2 and two rounds leave 3 records.\<close>

lemma improvement_rounds_pass_the_cap:
  "map_option (\<lambda>(out, s). (out, max_factors (settings 2 10), length (mined_factors s)))
     (mine_factors 3 (scenario ''pv1'' 1) (settings 2 10) (Some 2) None (new_system False))
   = Some (Returned, 2, 3)"
  by code_simp

subsection \<open>Dataset selection\<close>

text \<open>
  C6: when the identifier the generator suggests is not the id of any catalog entry and
  the catalog is not empty, \<^verbatim>\<open>select_dataset\<close> makes the first entry of the catalog the
  current dataset and returns it, so the cycle goes on with it.
\<close>

theorem select_dataset_fallback:
  assumes "datasets_info st = d # ds"
    and "ai_select_dataset (make_request E (tick st)) (datasets_info st) = Inr sel"
    and "selected_dataset sel \<notin> (\<lambda>x. JStr (ds_id x)) ` set (datasets_info st)"
  shows "select_dataset E st = (Inr d, called st\<lparr>current_dataset := Some d\<rparr>)"
proof -
  from assms(3) have "find (\<lambda>x. JStr (ds_id x) = selected_dataset sel) (datasets_info st) = None"
    by (force simp: find_None_iff image_iff)
  with assms(1,2) show ?thesis by (simp add: select_dataset_def)
qed

text \<open>
  The scenario of the specification: three datasets, and the generator names \<open>news12\<close>,
  which is none of them. The first dataset of the listing is selected.
\<close>

theorem select_dataset_fallback_witness:
  "select_dataset (scenario ''news12'' 1) ready_system
     = (Inr ds_fundamental, called ready_system\<lparr>current_dataset := Some ds_fundamental\<rparr>)"
proof -
  have 1: "datasets_info ready_system = ds_fundamental # [ds_pv, ds_analyst]"
    by (simp add: ready_system_def)
  have 2: "ai_select_dataset (make_request (scenario ''news12'' 1) (tick ready_system))
             (datasets_info ready_system)
      = Inr \<lparr>selected_dataset = JStr ''news12'', reason = JStr ''coverage''\<rparr>"
    by (simp add: ai_select_dataset_def scenario_def)
  have 3: "selected_dataset \<lparr>selected_dataset = JStr ''news12'', reason = JStr ''coverage''\<rparr>
      \<notin> (\<lambda>x. JStr (ds_id x)) ` set (datasets_info ready_system)"
    by (simp add: ready_system_def ds_fundamental_def ds_pv_def ds_analyst_def)
  from select_dataset_fallback [OF 1 2 3] show ?thesis .
qed



subsection \<open>The improvement sub-loop\<close>

text \<open>
  C7: for a seed accepted in an outer cycle, the improvement sub-loop (entered with
  \<open>iteration = 0\<close>) passes through its body at most \<open>max_iterations\<close> times. Each pass
  appends at most one record and makes at most five calls to the collaborators.
\<close>

theorem improve_loop_bounded:
  "(case improve_loop E max_it min_sh ds 0 st of
      (n, s) \<Rightarrow> n \<le> nat max_it
                \<and> length (mined_factors s) \<le> length (mined_factors st) + n
                \<and> tick s \<le> tick st + 5 * n)"
proof -
  obtain n s where l: "improve_loop E max_it min_sh ds 0 st = (n, s)"
    by (cases "improve_loop E max_it min_sh ds 0 st")
  from improve_loop_effect [OF l] l show ?thesis by auto
qed

text \<open>Three rounds allowed, every revision scores 1 against a target of 1.5.\<close>

theorem improve_loop_bounded_witness:
  "fst (improve_loop (scenario ''pv1'' 1) 3 1.5 ds_pv 0 ready_system) \<le> 3"
  using improve_loop_bounded [where E = "scenario ''pv1'' 1" and max_it = 3 and min_sh = "1.5"
      and ds = ds_pv and st = ready_system]
  by (auto split: prod.splits)

text \<open>
  C8: when a pass of the improvement sub-loop has appended a candidate's record and the
  first entry of the record's checks has a numeric value that is at least \<open>min_sharpe\<close>,
  the sub-loop ends with that pass: its result is the state the pass left, the record
  being the last of the sequence, and nothing more is generated for that seed.
\<close>

theorem accepted_score_ends_sub_loop:
  assumes "iteration < max_it"
    and "improve_body E min_sh ds st = (r, s)"
    and "mined_factors s = mined_factors st @ [x]"
    and "primary_score (check x) = Inr (JNum v)"
    and "min_sh \<le> v"
  shows "improve_loop E max_it min_sh ds iteration st = (1, s)"
proof -
  from assms(4,5) have "reaches_target (check x) min_sh = Inr True"
    by (simp add: reaches_target_def ge_float_def)
  from target_reached_stops [OF assms(1-3) this] show ?thesis by simp
qed

text \<open>The first revision scores 2 against a target of 1.5, with ten rounds allowed.\<close>

theorem accepted_score_ends_sub_loop_witness:
  "(0::int) < 10
   \<and> mined_factors (snd (improve_body (scenario ''pv1'' 2) 1.5 ds_pv ready_system))
       = mined_factors ready_system @ [accepted_record 2]
   \<and> primary_score (check (accepted_record 2)) = Inr (JNum 2)
   \<and> (1.5::rat) \<le> 2
   \<and> improve_loop (scenario ''pv1'' 2) 10 1.5 ds_pv 0 ready_system
       = (1, snd (improve_body (scenario ''pv1'' 2) 1.5 ds_pv ready_system))"
proof -
  have 1: "(0::int) < 10" by simp
  have 2: "improve_body (scenario ''pv1'' 2) 1.5 ds_pv ready_system
      = (fst (improve_body (scenario ''pv1'' 2) 1.5 ds_pv ready_system),
         snd (improve_body (scenario ''pv1'' 2) 1.5 ds_pv ready_system))" by simp
  have 3: "mined_factors (snd (improve_body (scenario ''pv1'' 2) 1.5 ds_pv ready_system))
       = mined_factors ready_system @ [accepted_record 2]" by code_simp
  have 4: "primary_score (check (accepted_record 2)) = Inr (JNum 2)" by code_simp
  have 5: "(1.5::rat) \<le> 2" by simp
  from accepted_score_ends_sub_loop [OF 1 2 3 4 5] 1 3 4 5 show ?thesis by blast
qed

subsection \<open>Records\<close>

text \<open>
  C9: a cycle, and so the outer loop, only ever appends to the sequence, and every
  record appended has a simulation result that names an alpha and a check result that
  is not empty. In
  particular, when \<^verbatim>\<open>simulate_factor\<close> returns a result without \<^verbatim>\<open>'alpha'\<close> for the seed,
  the cycle is skipped with the sequence as it was, and when it does so for a revision,
  the sub-loop ends with the sequence as it was.
\<close>

theorem records_need_simulation_and_check:
  "(\<exists>new. mined_factors (snd (cycle E cfg max_it min_sh st)) = mined_factors st @ new
          \<and> list_all record_ok new)
   \<and> (mine_loop fuel E cfg max_it min_sh st = Some s \<longrightarrow>
      (\<exists>new. mined_factors s = mined_factors st @ new \<and> list_all record_ok new))
   \<and> (select_dataset E st = (Inr ds, sa) \<and> generate_initial_factor E sa = (Inr factor_expr, sb)
        \<and> factor_expr \<noteq> []
        \<and> simulate_factor E factor_expr (log_info ''initial factor expression'' sb) = (sim_result, sc)
        \<and> \<not> has_key sim_result ''alpha''
      \<longrightarrow> cycle E cfg max_it min_sh st
            = (Next, log_warning ''simulation of the factor failed, cycle skipped'' sc)
          \<and> mined_factors sc = mined_factors st)
   \<and> (iteration < max_it
        \<and> generate_next_factor E (mined_factors st) st = (Inr next_factor, ta)
        \<and> next_factor \<noteq> []
        \<and> simulate_factor E next_factor (log_info ''next factor expression'' ta) = (sim_next, tb)
        \<and> \<not> has_key sim_next ''alpha''
      \<longrightarrow> improve_loop E max_it min_sh dsn iteration st
            = (1, log_warning ''simulation of the new factor failed, sub-loop ends'' tb)
          \<and> mined_factors tb = mined_factors st)"
proof (intro conjI impI)
  have "cycle E cfg max_it min_sh st
      = (fst (cycle E cfg max_it min_sh st), snd (cycle E cfg max_it min_sh st))" by simp
  from cycle_effect [OF this]
  show "\<exists>new. mined_factors (snd (cycle E cfg max_it min_sh st)) = mined_factors st @ new
          \<and> list_all record_ok new" by blast
next
  assume "mine_loop fuel E cfg max_it min_sh st = Some s"
  from mine_loop_effect [OF this]
  show "\<exists>new. mined_factors s = mined_factors st @ new \<and> list_all record_ok new" by blast
next
  assume a: "select_dataset E st = (Inr ds, sa) \<and> generate_initial_factor E sa = (Inr factor_expr, sb)
        \<and> factor_expr \<noteq> []
        \<and> simulate_factor E factor_expr (log_info ''initial factor expression'' sb) = (sim_result, sc)
        \<and> \<not> has_key sim_result ''alpha''"
  then show "cycle E cfg max_it min_sh st
            = (Next, log_warning ''simulation of the factor failed, cycle skipped'' sc)"
    by (simp add: cycle_def cycle_body_def)
  from a select_dataset_frame [of E st "Inr ds" sa]
    generate_initial_factor_frame [of E sa "Inr factor_expr" sb]
    simulate_factor_frame [of E factor_expr "log_info ''initial factor expression'' sb" sim_result sc]
  show "mined_factors sc = mined_factors st" by simp
next
  assume a: "iteration < max_it
        \<and> generate_next_factor E (mined_factors st) st = (Inr next_factor, ta)
        \<and> next_factor \<noteq> []
        \<and> simulate_factor E next_factor (log_info ''next factor expression'' ta) = (sim_next, tb)
        \<and> \<not> has_key sim_next ''alpha''"
  then show "improve_loop E max_it min_sh dsn iteration st
            = (1, log_warning ''simulation of the new factor failed, sub-loop ends'' tb)"
    by (simp add: improve_loop.simps improve_body_def)
  from a generate_next_factor_frame [of E "mined_factors st" st "Inr next_factor" ta]
    simulate_factor_frame [of E next_factor "log_info ''next factor expression'' ta" sim_next tb]
  show "mined_factors tb = mined_factors st" by simp
qed

text \<open>
  The first simulations lack the alpha id: the first cycle is skipped and a sub-loop
  started then ends at once; the run then appends two records, both well-formed.
\<close>

theorem records_need_simulation_and_check_witness:
  "(\<exists>s new. mine_loop 3 alpha_late (settings 2 10) 1 1.5 ready_system = Some s
        \<and> mined_factors s = mined_factors ready_system @ new \<and> list_all record_ok new
        \<and> length (mined_factors s) = 2)
   \<and> fst (cycle alpha_late (settings 2 10) 1 1.5 ready_system) = Next
   \<and> mined_factors (snd (cycle alpha_late (settings 2 10) 1 1.5 ready_system)) = []
   \<and> fst (improve_loop alpha_late 1 1.5 ds_pv 0 ready_system) = 1
   \<and> mined_factors (snd (improve_loop alpha_late 1 1.5 ds_pv 0 ready_system)) = []"
proof -
  define s where "s = the (mine_loop 3 alpha_late (settings 2 10) 1 1.5 ready_system)"
  define s1 where "s1 = snd (select_dataset alpha_late ready_system)"
  define s2 where "s2 = snd (generate_initial_factor alpha_late s1)"
  define s3 where "s3 = snd (simulate_factor alpha_late ''rank(Close)'' (log_info ''initial factor expression'' s2))"
  define t1 where "t1 = snd (generate_next_factor alpha_late (mined_factors ready_system) ready_system)"
  define t2 where "t2 = snd (simulate_factor alpha_late ''rank(Close)'' (log_info ''next factor expression'' t1))"
  have run: "mine_loop 3 alpha_late (settings 2 10) 1 1.5 ready_system = Some s"
    unfolding s_def by code_simp
  have len: "length (mined_factors s) = 2" unfolding s_def by code_simp
  have seed: "select_dataset alpha_late ready_system = (Inr ds_pv, s1)
      \<and> generate_initial_factor alpha_late s1 = (Inr ''rank(Close)'', s2)
      \<and> ''rank(Close)'' \<noteq> []
      \<and> simulate_factor alpha_late ''rank(Close)'' (log_info ''initial factor expression'' s2) = ([], s3)
      \<and> \<not> has_key [] ''alpha''"
    unfolding s1_def s2_def s3_def by code_simp
  have sub: "(0::int) < 1
      \<and> generate_next_factor alpha_late (mined_factors ready_system) ready_system = (Inr ''rank(Close)'', t1)
      \<and> ''rank(Close)'' \<noteq> []
      \<and> simulate_factor alpha_late ''rank(Close)'' (log_info ''next factor expression'' t1) = ([], t2)
      \<and> \<not> has_key [] ''alpha''"
    unfolding t1_def t2_def by code_simp
  have empty: "mined_factors ready_system = []" by code_simp
  note inst = records_need_simulation_and_check [where fuel = 3 and E = alpha_late
      and cfg = "settings 2 10" and max_it = 1 and min_sh = "1.5" and st = ready_system and s = s
      and ds = ds_pv and sa = s1 and factor_expr = "''rank(Close)''" and sb = s2
      and sim_result = "[]" and sc = s3 and iteration = 0 and next_factor = "''rank(Close)''"
      and ta = t1 and sim_next = "[]" and tb = t2 and dsn = ds_pv]
  from inst run obtain new where new: "mined_factors s = mined_factors ready_system @ new"
      "list_all record_ok new" by blast
  from inst seed have c: "cycle alpha_late (settings 2 10) 1 1.5 ready_system
            = (Next, log_warning ''simulation of the factor failed, cycle skipped'' s3)"
      "mined_factors s3 = mined_factors ready_system" by blast+
  from inst sub have l: "improve_loop alpha_late 1 1.5 ds_pv 0 ready_system
            = (1, log_warning ''simulation of the new factor failed, sub-loop ends'' t2)"
      "mined_factors t2 = mined_factors ready_system" by blast+
  show ?thesis
  proof (intro conjI)
    show "\<exists>s new. mine_loop 3 alpha_late (settings 2 10) 1 1.5 ready_system = Some s
        \<and> mined_factors s = mined_factors ready_system @ new \<and> list_all record_ok new
        \<and> length (mined_factors s) = 2"
      using run new len by (intro exI [of _ s] exI [of _ new] conjI)
  qed (use c l empty in simp_all)
qed

subsection \<open>Exceptions in a cycle\<close>

text \<open>
  C3 as stated fails: the handler at the outer-cycle boundary ends with \<^verbatim>\<open>break\<close>, so the
  exception ends the outer loop, not only the cycle. Here the field listing fails in the
  first cycle; the run returns with no record although the cap is 1, after three calls
  (selection, field listing, final save), while a second cycle would have appended
  records.
\<close>

theorem exception_ends_outer_loop_not_cycle:
  "map_option (\<lambda>(out, s). (out, length (mined_factors s), max_factors (settings 1 10), tick s))
      (mine_factors 5 fields_down_once (settings 1 10) None None (new_system True))
     = Some (Returned, 0, 1, 3)
   \<and> fst (cycle_body fields_down_once (settings 1 10) 10 1.5
            (snd (initialize fields_down_once (new_system True)))) = Inl RemoteError
   \<and> length (mined_factors (snd (cycle fields_down_once (settings 1 10) 10 1.5
        (snd (cycle fields_down_once (settings 1 10) 10 1.5
            (snd (initialize fields_down_once (new_system True)))))))) = 2"
  by code_simp

text \<open>
  C3, amended: an exception that reaches the outer-cycle boundary (raised by
  \<^verbatim>\<open>select_dataset\<close>, \<^verbatim>\<open>generate_initial_factor\<close> or the periodic save) is caught there,
  logged (when the system has a logger), and ends the outer loop: no further cycle is
  run. An exception raised inside the improvement sub-loop is caught by the sub-loop's
  own handler, logged, and ends the sub-loop only.
\<close>

theorem exception_ends_outer_loop:
  "(int (length (mined_factors st)) < max_factors cfg
      \<and> cycle_body E cfg max_it min_sh st = (Inl e, s)
    \<longrightarrow> mine_loop (Suc fuel) E cfg max_it min_sh st
          = Some (log_error ''error in the main mining loop'' s))
   \<and> (iteration < max_it \<and> improve_body E min_sh ds st' = (Inl e', s')
    \<longrightarrow> improve_loop E max_it min_sh ds iteration st'
          = (1, log_error ''error in an improvement iteration'' s'))"
  by (simp add: cycle_def improve_loop.simps)

text \<open>The field listing fails in the cycle that starts at the ready system.\<close>

theorem exception_ends_outer_loop_witness:
  "int (length (mined_factors ready_system)) < max_factors (settings 1 10)
   \<and> cycle_body fields_down_once (settings 1 10) 10 1.5 ready_system
       = (Inl RemoteError, called (called ready_system))
   \<and> mine_loop (Suc 0) fields_down_once (settings 1 10) 10 1.5 ready_system
       = Some (log_error ''error in the main mining loop'' (called (called ready_system)))"
proof -
  have 1: "int (length (mined_factors ready_system)) < max_factors (settings 1 10)"
    by code_simp
  have 2: "cycle_body fields_down_once (settings 1 10) 10 1.5 ready_system
       = (Inl RemoteError, called (called ready_system))"
    by code_simp
  from exception_ends_outer_loop [where st = ready_system and cfg = "settings 1 10"
      and E = fields_down_once and max_it = 10 and min_sh = "1.5" and e = RemoteError
      and s = "called (called ready_system)" and fuel = 0] 1 2
  show ?thesis by blast
qed

subsection \<open>Snapshots\<close>







end
